theory Spec2Isabelle
  imports Main
begin

section \<open>Python values\<close>

text \<open>
  The bridge (\<^verbatim>\<open>mqtt.py\<close>) handles values produced by \<^verbatim>\<open>json.loads\<close>: \<^verbatim>\<open>None\<close>,
  booleans, unbounded integers, floats, strings, lists and dictionaries with string keys.
  A Python \<^verbatim>\<open>str\<close> is represented by its UTF-8 encoding, an Isabelle \<open>string\<close> of
  bytes; a lone surrogate, which a \<^verbatim>\<open>str\<close> can hold and UTF-8 cannot, by the three bytes
  the same scheme gives it (\<^verbatim>\<open>ED\<close>, then \<^verbatim>\<open>A0\<close> to \<^verbatim>\<open>BF\<close>, then a continuation byte).
  For ASCII text the representation is the text itself. A \<^verbatim>\<open>bytes\<close> object is a
  \<open>string\<close> too. A dictionary is an association list in insertion order with distinct
  keys. A float is kept as the text of its JSON literal; its truth value is exact, its
  rendering is the literal (Python renders the nearest double), and no statement below
  depends on how a float is rendered.
\<close>

datatype json =
    JNull
  | JBool bool
  | JInt int
  | JFloat string
  | JStr string
  | JArr "json list"
  | JObj "(string \<times> json) list"

datatype error =
    TypeError
  | KeyError
  | IndexError
  | AttributeError
  | UnicodeDecodeError
  | UnicodeEncodeError

type_synonym dict = "(string \<times> json) list"

text \<open>\<^verbatim>\<open>k in d\<close>, \<^verbatim>\<open>d.get(k)\<close> and \<^verbatim>\<open>d[k] = v\<close> on a dictionary.\<close>

definition dict_has :: "dict \<Rightarrow> string \<Rightarrow> bool" where
  "dict_has d k \<longleftrightarrow> k \<in> set (map fst d)"

definition dict_get :: "dict \<Rightarrow> string \<Rightarrow> json" where
  "dict_get d k = (case map_of d k of None \<Rightarrow> JNull | Some v \<Rightarrow> v)"

fun dict_set :: "string \<Rightarrow> json \<Rightarrow> dict \<Rightarrow> dict" where
  "dict_set k v [] = [(k, v)]"
| "dict_set k v ((k', v') # d) = (if k' = k then (k, v) # d else (k', v') # dict_set k v d)"

text \<open>\<^verbatim>\<open>dict(pairs)\<close>: a repeated key keeps its first position and its last value.\<close>

definition dict_of :: "(string \<times> json) list \<Rightarrow> dict" where
  "dict_of kvs = foldl (\<lambda>d kv. dict_set (fst kv) (snd kv) d) [] kvs"

subsection \<open>UTF-8\<close>

text \<open>
  \<open>valid_utf8\<close> is what the strict decoder behind \<^verbatim>\<open>bytes.decode()\<close> accepts and what
  \<^verbatim>\<open>str.encode('utf-8')\<close> can produce: shortest forms only, nothing above U+10FFFF, no
  surrogates. A byte string that fails it makes \<^verbatim>\<open>decode\<close> raise
  \<^verbatim>\<open>UnicodeDecodeError\<close>; a \<^verbatim>\<open>str\<close> whose representation fails it holds a surrogate and
  makes \<^verbatim>\<open>encode\<close> raise \<^verbatim>\<open>UnicodeEncodeError\<close>.
\<close>

definition cont :: "char \<Rightarrow> bool" where
  "cont c \<longleftrightarrow> 128 \<le> (of_char c :: nat) \<and> (of_char c :: nat) \<le> 191"

definition second_of3 :: "nat \<Rightarrow> char \<Rightarrow> bool" where
  "second_of3 lead c \<longleftrightarrow>
     (if lead = 224 then 160 \<le> (of_char c :: nat) \<and> (of_char c :: nat) \<le> 191
      else if lead = 237 then 128 \<le> (of_char c :: nat) \<and> (of_char c :: nat) \<le> 159
      else cont c)"

definition second_of4 :: "nat \<Rightarrow> char \<Rightarrow> bool" where
  "second_of4 lead c \<longleftrightarrow>
     (if lead = 240 then 144 \<le> (of_char c :: nat) \<and> (of_char c :: nat) \<le> 191
      else if lead = 244 then 128 \<le> (of_char c :: nat) \<and> (of_char c :: nat) \<le> 143
      else cont c)"

fun valid_utf8 :: "string \<Rightarrow> bool" where
  "valid_utf8 [] = True"
| "valid_utf8 (c # cs) =
     (if (of_char c :: nat) < 128 then valid_utf8 cs
      else if 194 \<le> (of_char c :: nat) \<and> (of_char c :: nat) \<le> 223 then
        (case cs of
           c1 # r \<Rightarrow> cont c1 \<and> valid_utf8 r
         | _ \<Rightarrow> False)
      else if 224 \<le> (of_char c :: nat) \<and> (of_char c :: nat) \<le> 239 then
        (case cs of
           c1 # c2 # r \<Rightarrow> second_of3 (of_char c) c1 \<and> cont c2 \<and> valid_utf8 r
         | _ \<Rightarrow> False)
      else if 240 \<le> (of_char c :: nat) \<and> (of_char c :: nat) \<le> 244 then
        (case cs of
           c1 # c2 # c3 # r \<Rightarrow> second_of4 (of_char c) c1 \<and> cont c2 \<and> cont c3 \<and> valid_utf8 r
         | _ \<Rightarrow> False)
      else False)"

text \<open>The representation of one code point (a surrogate included).\<close>

definition utf8_encode :: "nat \<Rightarrow> string" where
  "utf8_encode n =
     (if n < 128 then [char_of n]
      else if n < 2048 then [char_of (192 + n div 64), char_of (128 + n mod 64)]
      else if n < 65536 then
        [char_of (224 + n div 4096), char_of (128 + (n div 64) mod 64), char_of (128 + n mod 64)]
      else
        [char_of (240 + n div 262144), char_of (128 + (n div 4096) mod 64),
         char_of (128 + (n div 64) mod 64), char_of (128 + n mod 64)])"

text \<open>The number of bytes of the character that starts with the byte \<open>c\<close>.\<close>

definition char_width :: "char \<Rightarrow> nat" where
  "char_width c =
     (if (of_char c :: nat) < 192 then 1
      else if (of_char c :: nat) < 224 then 2
      else if (of_char c :: nat) < 240 then 3
      else 4)"

subsection \<open>Truth values and subscripts\<close>

definition is_digit :: "char \<Rightarrow> bool" where
  "is_digit c \<longleftrightarrow> c \<in> set ''0123456789''"

definition digit_val :: "char \<Rightarrow> int" where
  "digit_val c = of_char c - 48"

definition int_of_digits :: "string \<Rightarrow> int" where
  "int_of_digits ds = foldl (\<lambda>n c. 10 * n + digit_val c) 0 ds"

text \<open>
  A float is false when it is zero. \<^verbatim>\<open>NaN\<close> and the infinities are not. A finite
  literal with digits \<open>m\<close> (the point removed) and decimal exponent \<open>e\<close> (the written
  exponent less the number of fraction digits) has the value \<open>m * 10 ^ e\<close>, and the
  nearest double is zero exactly when that value is at most \<open>2 ^ -1075\<close>, half the least
  positive double (the tie goes to zero, the even neighbour).
\<close>

definition float_nonzero :: "string \<Rightarrow> bool" where
  "float_nonzero f =
     (if f = ''NaN'' \<or> f = ''Infinity'' \<or> f = ''-Infinity'' then True
      else
        let mant = takeWhile (\<lambda>c. c \<noteq> CHR ''e'' \<and> c \<noteq> CHR ''E'') f;
            ex = drop (Suc (length mant)) f;
            m = int_of_digits (filter is_digit mant);
            frac = length (drop 1 (dropWhile (\<lambda>c. c \<noteq> CHR ''.'') mant));
            written = (if ex \<noteq> [] \<and> hd ex = CHR ''-''
                       then - int_of_digits (filter is_digit ex)
                       else int_of_digits (filter is_digit ex));
            e = written - int frac
        in if 0 \<le> e then m \<noteq> 0 else 10 ^ nat (- e) < m * 2 ^ 1075)"

text \<open>Truth value of an object, as \<^verbatim>\<open>if x:\<close> tests it.\<close>

fun truthy :: "json \<Rightarrow> bool" where
  "truthy JNull = False"
| "truthy (JBool b) = b"
| "truthy (JInt i) = (i \<noteq> 0)"
| "truthy (JFloat f) = float_nonzero f"
| "truthy (JStr s) = (s \<noteq> [])"
| "truthy (JArr xs) = (xs \<noteq> [])"
| "truthy (JObj d) = (d \<noteq> [])"

text \<open>\<^verbatim>\<open>x[0]\<close>: the first element of a list, the first character of a string; a dictionary
  from JSON has string keys only, so the key \<^verbatim>\<open>0\<close> is missing; the other values are not
  subscriptable.\<close>

fun subscript0 :: "json \<Rightarrow> error + json" where
  "subscript0 (JArr []) = Inl IndexError"
| "subscript0 (JArr (x # xs)) = Inr x"
| "subscript0 (JStr []) = Inl IndexError"
| "subscript0 (JStr (c # cs)) = Inr (JStr (take (char_width c) (c # cs)))"
| "subscript0 (JObj d) = Inl KeyError"
| "subscript0 v = Inl TypeError"

subsection \<open>Rendering: \<^verbatim>\<open>str\<close> and \<^verbatim>\<open>repr\<close>\<close>

fun dec_nat :: "nat \<Rightarrow> string" where
  "dec_nat n =
     (if n < 10 then [''0123456789'' ! n]
      else dec_nat (n div 10) @ [''0123456789'' ! (n mod 10)])"

declare dec_nat.simps [simp del]

definition dec_int :: "int \<Rightarrow> string" where
  "dec_int i = (if i < 0 then CHR ''-'' # dec_nat (nat (- i)) else dec_nat (nat i))"

definition hex_digit :: "nat \<Rightarrow> char" where
  "hex_digit n = ''0123456789abcdef'' ! (n mod 16)"

definition hex2 :: "nat \<Rightarrow> string" where
  "hex2 n = [hex_digit (n div 16), hex_digit n]"

text \<open>
  \<^verbatim>\<open>repr\<close> of a string. The quote is the apostrophe unless the string has an apostrophe
  and no double quote. ASCII is rendered exactly: the backslash and the quote are
  escaped, tab, line feed and carriage return have their letters, the other control
  characters are \<^verbatim>\<open>\xNN\<close>. A surrogate is rendered as its \<^verbatim>\<open>\udXXX\<close> escape, in ASCII.
  For any other character beyond ASCII Python asks the Unicode database whether it
  is printable and escapes it if not; here it is left as it is, which changes the text
  and not whether it can be encoded.
\<close>

fun repr_chars :: "char \<Rightarrow> string \<Rightarrow> string" where
  "repr_chars q [] = []"
| "repr_chars q (c # cs) =
     (if c = q \<or> c = CHR 0x5C then [CHR 0x5C, c] @ repr_chars q cs
      else if c = CHR 0x09 then [CHR 0x5C, CHR ''t''] @ repr_chars q cs
      else if c = CHR 0x0A then [CHR 0x5C, CHR ''n''] @ repr_chars q cs
      else if c = CHR 0x0D then [CHR 0x5C, CHR ''r''] @ repr_chars q cs
      else if (of_char c :: nat) < 32 \<or> (of_char c :: nat) = 127
        then [CHR 0x5C, CHR ''x''] @ hex2 (of_char c) @ repr_chars q cs
      else if (of_char c :: nat) = 237 then
        (case cs of
           c1 # c2 # r \<Rightarrow>
             if 160 \<le> (of_char c1 :: nat) then
               [CHR 0x5C, CHR ''u'', CHR ''d'', hex_digit ((of_char c1 - 128) div 4),
                hex_digit (((of_char c1 - 128) mod 4) * 4 + (of_char c2 - 128) div 16),
                hex_digit (of_char c2 - 128)]
               @ repr_chars q r
             else c # repr_chars q cs
         | _ \<Rightarrow> c # repr_chars q cs)
      else c # repr_chars q cs)"

definition repr_str :: "string \<Rightarrow> string" where
  "repr_str s =
     (let q = (if CHR 0x27 \<in> set s \<and> CHR 0x22 \<notin> set s then CHR 0x22 else CHR 0x27)
      in [q] @ repr_chars q s @ [q])"

fun join :: "string \<Rightarrow> string list \<Rightarrow> string" where
  "join sep [] = []"
| "join sep [x] = x"
| "join sep (x # y # ys) = x @ sep @ join sep (y # ys)"

fun py_repr :: "json \<Rightarrow> string" where
  "py_repr JNull = ''None''"
| "py_repr (JBool b) = (if b then ''True'' else ''False'')"
| "py_repr (JInt i) = dec_int i"
| "py_repr (JFloat f) = f"
| "py_repr (JStr s) = repr_str s"
| "py_repr (JArr xs) = ''['' @ join '', '' (map py_repr xs) @ '']''"
| "py_repr (JObj d) =
     ''{'' @ join '', '' (map (\<lambda>kv. repr_str (fst kv) @ '': '' @ py_repr (snd kv)) d) @ ''}''"

definition py_str :: "json \<Rightarrow> string" where
  "py_str v = (case v of JStr s \<Rightarrow> s | _ \<Rightarrow> py_repr v)"

text \<open>
  \<^verbatim>\<open>str.upper\<close>. The ASCII letters are mapped exactly. A character beyond ASCII is
  left as it is; Python maps it by the Unicode tables. The characters beyond ASCII whose
  capitals are ASCII throughout give \<^verbatim>\<open>SS\<close>, \<^verbatim>\<open>I\<close>, \<^verbatim>\<open>S\<close>, \<^verbatim>\<open>FF\<close>, \<^verbatim>\<open>FI\<close>, \<^verbatim>\<open>FL\<close>,
  \<^verbatim>\<open>FFI\<close>, \<^verbatim>\<open>FFL\<close> or \<^verbatim>\<open>ST\<close>, none of which occurs in \<^verbatim>\<open>ON\<close>, \<^verbatim>\<open>1\<close> or \<^verbatim>\<open>TRUE\<close>: whether
  the result is one of these three, the one use the bridge makes of it, is the same
  here and there.
\<close>

definition upper_char :: "char \<Rightarrow> char" where
  "upper_char c =
     (case map_of (zip ''abcdefghijklmnopqrstuvwxyz'' ''ABCDEFGHIJKLMNOPQRSTUVWXYZ'') c of
        Some u \<Rightarrow> u
      | None \<Rightarrow> c)"

definition upper :: "string \<Rightarrow> string" where
  "upper s = map upper_char s"

section \<open>\<^verbatim>\<open>json.loads\<close>\<close>

text \<open>
  The decoder of the standard library, in its default (strict) mode: white space is
  blank, tab, line feed and carriage return; a number is
  \<^verbatim>\<open>-?(0|[1-9][0-9]*)(\.[0-9]+)?([eE][-+]?[0-9]+)?\<close>; the literals \<^verbatim>\<open>NaN\<close>, \<^verbatim>\<open>Infinity\<close>
  and \<^verbatim>\<open>-Infinity\<close> are accepted; control characters inside a string are rejected.
  \<open>None\<close> stands for the \<^verbatim>\<open>JSONDecodeError\<close> the decoder raises. An escape
  \<^verbatim>\<open>\uXXXX\<close> gives the character with that number; a high surrogate followed by the
  escape of a low one gives the character the pair encodes; any other surrogate stays
  in the string as it is. The interpreter's limits (nesting depth, digits of an
  integer) are not modelled.
\<close>

definition is_ws :: "char \<Rightarrow> bool" where
  "is_ws c \<longleftrightarrow> c = CHR '' '' \<or> c = CHR 0x09 \<or> c = CHR 0x0A \<or> c = CHR 0x0D"

definition skip_ws :: "string \<Rightarrow> string" where
  "skip_ws = dropWhile is_ws"

definition hex_val :: "char \<Rightarrow> nat option" where
  "hex_val c =
     (let n = (of_char c :: nat) in
      if 48 \<le> n \<and> n \<le> 57 then Some (n - 48)
      else if 65 \<le> n \<and> n \<le> 70 then Some (n - 55)
      else if 97 \<le> n \<and> n \<le> 102 then Some (n - 87)
      else None)"

definition hex4 :: "string \<Rightarrow> nat option" where
  "hex4 cs =
     (case map hex_val (take 4 cs) of
        [Some a, Some b, Some c, Some d] \<Rightarrow> Some (4096 * a + 256 * b + 16 * c + d)
      | _ \<Rightarrow> None)"

definition unescape :: "char \<Rightarrow> char option" where
  "unescape e =
     (if e = CHR 0x22 \<or> e = CHR 0x5C \<or> e = CHR ''/'' then Some e
      else if e = CHR ''b'' then Some (CHR 0x08)
      else if e = CHR ''f'' then Some (CHR 0x0C)
      else if e = CHR ''n'' then Some (CHR 0x0A)
      else if e = CHR ''r'' then Some (CHR 0x0D)
      else if e = CHR ''t'' then Some (CHR 0x09)
      else None)"

text \<open>The body of a string, from the character after the opening quote.\<close>

fun scanstring :: "string \<Rightarrow> (string \<times> string) option" where
  "scanstring [] = None"
| "scanstring (c # cs) =
     (if c = CHR 0x22 then Some ([], cs)
      else if c = CHR 0x5C then
        (case cs of
           [] \<Rightarrow> None
         | e # r \<Rightarrow>
             if e = CHR ''u'' then
               (case hex4 r of
                  None \<Rightarrow> None
                | Some n \<Rightarrow>
                    if 55296 \<le> n \<and> n \<le> 56319 \<and> take 2 (drop 4 r) = [CHR 0x5C, CHR ''u''] then
                      (case hex4 (drop 6 r) of
                         None \<Rightarrow> None
                       | Some n2 \<Rightarrow>
                           if 56320 \<le> n2 \<and> n2 \<le> 57343 then
                             (case scanstring (drop 10 r) of
                                None \<Rightarrow> None
                              | Some (s, rest) \<Rightarrow>
                                  Some (utf8_encode (65536 + (n - 55296) * 1024 + (n2 - 56320)) @ s,
                                        rest))
                           else
                             (case scanstring (drop 4 r) of
                                None \<Rightarrow> None
                              | Some (s, rest) \<Rightarrow> Some (utf8_encode n @ s, rest)))
                    else
                      (case scanstring (drop 4 r) of
                         None \<Rightarrow> None
                       | Some (s, rest) \<Rightarrow> Some (utf8_encode n @ s, rest)))
             else
               (case unescape e of
                  None \<Rightarrow> None
                | Some ch \<Rightarrow>
                    (case scanstring r of
                       None \<Rightarrow> None
                     | Some (s, rest) \<Rightarrow> Some (ch # s, rest))))
      else if (of_char c :: nat) < 32 then None
      else (case scanstring cs of
              None \<Rightarrow> None
            | Some (s, rest) \<Rightarrow> Some (c # s, rest)))"

text \<open>The three groups of the number pattern, each as the text it matches at the head
  of the input (empty when it does not match).\<close>

definition int_part :: "string \<Rightarrow> string" where
  "int_part cs =
     (let ds = takeWhile is_digit cs
      in if ds = [] then [] else if hd ds = CHR ''0'' then ''0'' else ds)"

definition frac_part :: "string \<Rightarrow> string" where
  "frac_part cs =
     (case cs of
        [] \<Rightarrow> []
      | c # r \<Rightarrow>
          if c = CHR ''.'' \<and> takeWhile is_digit r \<noteq> [] then c # takeWhile is_digit r else [])"

definition exp_part :: "string \<Rightarrow> string" where
  "exp_part cs =
     (case cs of
        [] \<Rightarrow> []
      | c # r \<Rightarrow>
          if c = CHR ''e'' \<or> c = CHR ''E'' then
            (let sg = (if r \<noteq> [] \<and> (hd r = CHR ''+'' \<or> hd r = CHR ''-'') then [hd r] else []);
                 ed = takeWhile is_digit (drop (length sg) r)
             in if ed = [] then [] else c # sg @ ed)
          else [])"

definition match_number :: "string \<Rightarrow> (json \<times> string) option" where
  "match_number cs =
     (let neg = (cs \<noteq> [] \<and> hd cs = CHR ''-'');
          r0 = (if neg then tl cs else cs);
          ip = int_part r0
      in if ip = [] then None
         else
           let r1 = drop (length ip) r0;
               frac = frac_part r1;
               r2 = drop (length frac) r1;
               ex = exp_part r2;
               r3 = drop (length ex) r2
           in if frac = [] \<and> ex = []
              then Some (JInt (if neg then - int_of_digits ip else int_of_digits ip), r3)
              else Some (JFloat ((if neg then ''-'' else []) @ ip @ frac @ ex), r3))"

definition starts_with :: "string \<Rightarrow> string \<Rightarrow> bool" where
  "starts_with s p \<longleftrightarrow> take (length p) s = p"

function (sequential)
  parse_value :: "string \<Rightarrow> (json \<times> string) option" and
  parse_items :: "string \<Rightarrow> (json list \<times> string) option" and
  parse_pairs :: "string \<Rightarrow> ((string \<times> json) list \<times> string) option"
where
  "parse_value [] = None"
| "parse_value (c # cs) =
     (if c = CHR 0x22 then
        (case scanstring cs of None \<Rightarrow> None | Some (s, r) \<Rightarrow> Some (JStr s, r))
      else if c = CHR ''{'' then
        (case skip_ws cs of
           [] \<Rightarrow> None
         | d # r \<Rightarrow>
             if d = CHR ''}'' then Some (JObj [], r)
             else (case parse_pairs (skip_ws cs) of
                     None \<Rightarrow> None
                   | Some (kvs, r') \<Rightarrow> Some (JObj (dict_of kvs), r')))
      else if c = CHR ''['' then
        (case skip_ws cs of
           [] \<Rightarrow> None
         | d # r \<Rightarrow>
             if d = CHR '']'' then Some (JArr [], r)
             else (case parse_items (skip_ws cs) of
                     None \<Rightarrow> None
                   | Some (vs, r') \<Rightarrow> Some (JArr vs, r')))
      else if starts_with (c # cs) ''null'' then Some (JNull, drop 4 (c # cs))
      else if starts_with (c # cs) ''true'' then Some (JBool True, drop 4 (c # cs))
      else if starts_with (c # cs) ''false'' then Some (JBool False, drop 5 (c # cs))
      else
        (case match_number (c # cs) of
           Some res \<Rightarrow> Some res
         | None \<Rightarrow>
             if starts_with (c # cs) ''NaN'' then Some (JFloat ''NaN'', drop 3 (c # cs))
             else if starts_with (c # cs) ''Infinity''
               then Some (JFloat ''Infinity'', drop 8 (c # cs))
             else if starts_with (c # cs) ''-Infinity''
               then Some (JFloat ''-Infinity'', drop 9 (c # cs))
             else None))"
| "parse_items cs =
     (case parse_value cs of
        None \<Rightarrow> None
      | Some (v, r1) \<Rightarrow>
          (case skip_ws r1 of
             [] \<Rightarrow> None
           | d # r2 \<Rightarrow>
               if d = CHR '']'' then Some ([v], r2)
               else if d = CHR '','' then
                 (if length (skip_ws r2) < length cs then
                    (case parse_items (skip_ws r2) of
                       None \<Rightarrow> None
                     | Some (vs, r3) \<Rightarrow> Some (v # vs, r3))
                  else None)
               else None))"
| "parse_pairs [] = None"
| "parse_pairs (c # cs) =
     (if c \<noteq> CHR 0x22 then None
      else
        (case scanstring cs of
           None \<Rightarrow> None
         | Some (k, r1) \<Rightarrow>
             (case skip_ws r1 of
                [] \<Rightarrow> None
              | d # r2 \<Rightarrow>
                  if d \<noteq> CHR '':'' then None
                  else if length (skip_ws r2) < Suc (length cs) then
                    (case parse_value (skip_ws r2) of
                       None \<Rightarrow> None
                     | Some (v, r3) \<Rightarrow>
                         (case skip_ws r3 of
                            [] \<Rightarrow> None
                          | e # r4 \<Rightarrow>
                              if e = CHR ''}'' then Some ([(k, v)], r4)
                              else if e = CHR '','' then
                                (if length (skip_ws r4) < Suc (length cs) then
                                   (case parse_pairs (skip_ws r4) of
                                      None \<Rightarrow> None
                                    | Some (kvs, r5) \<Rightarrow> Some ((k, v) # kvs, r5))
                                 else None)
                              else None))
                  else None)))"
  by pat_completeness auto

lemma length_skip_ws: "length (skip_ws cs) \<le> length cs"
  by (simp add: skip_ws_def length_dropWhile_le)

lemma skip_ws_Cons_length: "skip_ws cs = d # r \<Longrightarrow> Suc (2 * length r) < 2 * length cs"
  using length_skip_ws [of cs] by simp

termination parse_value
  by (relation "measure (\<lambda>x. case x of
          Inl cs \<Rightarrow> 2 * length cs
        | Inr (Inl cs) \<Rightarrow> 2 * length cs + 1
        | Inr (Inr cs) \<Rightarrow> 2 * length cs + 1)")
     (auto dest: skip_ws_Cons_length)

text \<open>The equation of \<open>parse_items\<close> matches any argument; it is unfolded on demand.\<close>

declare parse_items.simps [simp del]

definition json_loads :: "string \<Rightarrow> json option" where
  "json_loads s =
     (case parse_value (skip_ws s) of
        None \<Rightarrow> None
      | Some (v, r) \<Rightarrow> if skip_ws r = [] then Some v else None)"

section \<open>State of the bridge and of its surroundings\<close>

text \<open>
  The module's globals are \<^verbatim>\<open>current_states\<close>, \<^verbatim>\<open>last_text\<close> and \<^verbatim>\<open>ws\<close>; \<open>ws\<close> is
  \<open>True\<close> when the global holds a socket object and \<open>False\<close> when it is \<^verbatim>\<open>None\<close>.
  The surroundings are made explicit:
  \<^item> \<open>net\<close> decides whether the n-th operation on the socket (a connect, a liveness ping,
    a send) succeeds, and \<open>ops\<close> counts the operations made so far, so that a statement
    about every state is a statement about every behaviour of the transport;
  \<^item> \<open>wire\<close> holds the messages that went out over the socket, pings included;
  \<^item> \<open>requests\<close> holds the payloads \<^verbatim>\<open>ws_send\<close> was called with, in call order: the sends
    the translator asked the session manager for, whatever the transport made of them;
  \<^item> \<open>spawns\<close> counts the launches of the backing process;
  \<^item> \<open>published\<close> holds the calls of \<^verbatim>\<open>client.publish\<close> that went through (all
    retained);
  \<^item> \<open>log\<close> holds one entry for each \<^verbatim>\<open>print\<close>, with the values it interpolates;
    \<^verbatim>\<open>print\<close> itself is taken to succeed, whatever the console can encode.
  The receive thread only reads the socket and prints; it and the delays
  (\<^verbatim>\<open>time.sleep\<close>) are not modelled. An exception that leaves a function is a result
  \<open>Inl\<close> that carries the error and the state as the exception finds it.
\<close>

datatype log_entry =
    WsConnected
  | WsConnectFailed
  | WsCannotSend
  | WsSentText json
  | WsSentCommand json json
  | WsSendFailed
  | MqttSet string string
  | MqttProcessing json
  | MqttDetected json
  | MqttDisplayOn
  | MqttDisplayOff
  | MqttExtracted json
  | MqttTextToDisplay json
  | MqttUpdated string json
  | MqttSending "json list"

text \<open>
  What is handed to \<^verbatim>\<open>client.publish\<close>: the string \<^verbatim>\<open>str(v)\<close> of an attribute, the
  string \<^verbatim>\<open>json.dumps(current_states)\<close> (kept as the dictionary it renders), or the
  object \<^verbatim>\<open>last_text\<close> as it is.
\<close>

datatype mqtt_payload =
    Rendered string
  | Document dict
  | Raw json

text \<open>
  What \<^verbatim>\<open>handle_set_payload\<close> is given as payload: the bytes of an MQTT message, which
  is what \<^verbatim>\<open>on_message\<close> passes, or a string.
\<close>

datatype payload =
    Bytes string
  | Str string

record state =
  current_states :: dict
  last_text :: json
  ws :: bool
  net :: "nat \<Rightarrow> bool"
  ops :: nat
  wire :: "dict list"
  requests :: "dict list"
  spawns :: nat
  published :: "(string \<times> mqtt_payload) list"
  log :: "log_entry list"

type_synonym result = "(error \<times> state) + state"

definition DEFAULTS :: dict where
  "DEFAULTS =
     [(''power'', JBool False),
      (''brightness'', JInt 80),
      (''speed'', JInt 75),
      (''animation'', JInt 1),
      (''color'', JStr ''ffffff''),
      (''font'', JStr ''gnufont''),
      (''matrix_height'', JInt 16),
      (''font_size'', JNull),
      (''font_offset_x'', JInt 0),
      (''font_offset_y'', JInt 0)]"

text \<open>The topic table, for a base topic \<open>bt\<close> (\<^verbatim>\<open>ipixel/<device id>\<close>).\<close>

definition TOPICS :: "string \<Rightarrow> (string \<times> string) list" where
  "TOPICS bt =
     map (\<lambda>k. (k, bt @ ''/'' @ k))
       [''power'', ''brightness'', ''speed'', ''animation'', ''color'', ''font'',
        ''matrix_height'', ''font_size'', ''font_offset_x'', ''font_offset_y'',
        ''send_text'', ''clear'']"

definition CMD_TOPIC :: "string \<Rightarrow> string" where
  "CMD_TOPIC bt = bt @ ''/set''"

definition STATE_TOPIC :: "string \<Rightarrow> string" where
  "STATE_TOPIC bt = bt @ ''/state''"

definition LAST_TEXT_TOPIC :: "string \<Rightarrow> string" where
  "LAST_TEXT_TOPIC bt = bt @ ''/last_text''"

section \<open>WebSocket helpers\<close>

definition command :: "string \<Rightarrow> json list \<Rightarrow> dict" where
  "command name params = [(''command'', JStr name), (''params'', JArr params)]"

definition ping :: dict where
  "ping = [(''command'', JStr ''ping'')]"

definition start_server_once :: "state \<Rightarrow> state" where
  "start_server_once st = st\<lparr>spawns := Suc (spawns st)\<rparr>"

text \<open>
  \<^verbatim>\<open>ws_connect\<close>: a held socket is probed with a ping and kept when the ping goes out;
  when the ping fails the socket is closed and dropped, and a new connection is tried.
  The function returns the global \<open>ws\<close> as it leaves it.
\<close>

definition ws_connect :: "state \<Rightarrow> state" where
  "ws_connect st =
     (if ws st \<and> net st (ops st) then
        st\<lparr>ops := Suc (ops st), wire := wire st @ [ping]\<rparr>
      else
        let st1 = (if ws st then st\<lparr>ops := Suc (ops st), ws := False\<rparr> else st)
        in if net st1 (ops st1)
           then st1\<lparr>ops := Suc (ops st1), ws := True, log := log st1 @ [WsConnected]\<rparr>
           else st1\<lparr>ops := Suc (ops st1), ws := False, log := log st1 @ [WsConnectFailed]\<rparr>)"

definition ensure_server :: "state \<Rightarrow> state" where
  "ensure_server st =
     (let st1 = ws_connect st
      in if \<not> ws st1 then ws_connect (start_server_once st1) else st1)"

text \<open>
  \<^verbatim>\<open>ws_send\<close>: the whole body is inside \<^verbatim>\<open>try\<close>; the handler prints and does nothing
  else. After the message has gone out, the line that prints a sent text reads
  \<^verbatim>\<open>payload['params'][0]\<close>, which can raise into the same handler.
\<close>

definition ws_send :: "dict \<Rightarrow> state \<Rightarrow> state" where
  "ws_send payload st =
     (let st0 = st\<lparr>requests := requests st @ [payload]\<rparr>;
          st1 = (if \<not> ws st0 then ws_connect st0 else st0)
      in if \<not> ws st1 then st1\<lparr>log := log st1 @ [WsCannotSend]\<rparr>
         else if \<not> net st1 (ops st1)
           then st1\<lparr>ops := Suc (ops st1), log := log st1 @ [WsSendFailed]\<rparr>
         else
           let st2 = st1\<lparr>ops := Suc (ops st1), wire := wire st1 @ [payload]\<rparr>;
               cmd = dict_get payload ''command''
           in if cmd = JStr ''send_text'' then
                (if \<not> dict_has payload ''params'' then st2\<lparr>log := log st2 @ [WsSendFailed]\<rparr>
                 else case subscript0 (dict_get payload ''params'') of
                        Inl e \<Rightarrow> st2\<lparr>log := log st2 @ [WsSendFailed]\<rparr>
                      | Inr t \<Rightarrow> st2\<lparr>log := log st2 @ [WsSentText t]\<rparr>)
              else st2\<lparr>log := log st2 @ [WsSentCommand cmd (dict_get payload ''params'')]\<rparr>)"

section \<open>LED helpers\<close>

definition clear_generated_texts :: "state \<Rightarrow> state" where
  "clear_generated_texts = ws_send (command ''clear'' [])"

definition send_led_off :: "state \<Rightarrow> state" where
  "send_led_off = ws_send (command ''led_off'' [])"

definition send_led_on :: "state \<Rightarrow> state" where
  "send_led_on = ws_send (command ''led_on'' [])"

section \<open>MQTT helpers\<close>

text \<open>
  \<^verbatim>\<open>client.publish\<close> of the MQTT library. It takes a string, which it encodes as UTF-8
  (a string with a surrogate raises \<^verbatim>\<open>UnicodeEncodeError\<close>), bytes, an \<^verbatim>\<open>int\<close> (a \<^verbatim>\<open>bool\<close>
  is one) or a \<^verbatim>\<open>float\<close>, or \<^verbatim>\<open>None\<close>; for anything else, a list or a dictionary
  here, it raises \<^verbatim>\<open>TypeError\<close>. \<^verbatim>\<open>json.dumps\<close> escapes everything beyond ASCII, so
  the aggregate document can always be encoded. The topics are taken to be valid
  publish topics (a device identifier has no wildcard character).
\<close>

fun publish_error :: "mqtt_payload \<Rightarrow> error option" where
  "publish_error (Rendered s) = (if valid_utf8 s then None else Some UnicodeEncodeError)"
| "publish_error (Document d) = None"
| "publish_error (Raw (JStr s)) = (if valid_utf8 s then None else Some UnicodeEncodeError)"
| "publish_error (Raw (JArr xs)) = Some TypeError"
| "publish_error (Raw (JObj d)) = Some TypeError"
| "publish_error (Raw v) = None"

definition client_publish :: "string \<Rightarrow> mqtt_payload \<Rightarrow> state \<Rightarrow> result" where
  "client_publish topic p st =
     (case publish_error p of
        Some e \<Rightarrow> Inl (e, st)
      | None \<Rightarrow> Inr (st\<lparr>published := published st @ [(topic, p)]\<rparr>))"

text \<open>A sequence of publishes stops at the first that raises.\<close>

fun publish_all :: "(string \<times> mqtt_payload) list \<Rightarrow> state \<Rightarrow> result" where
  "publish_all [] st = Inr st"
| "publish_all (m # ms) st =
     (case client_publish (fst m) (snd m) st of
        Inl err \<Rightarrow> Inl err
      | Inr st' \<Rightarrow> publish_all ms st')"

text \<open>\<^verbatim>\<open>publish_states\<close>: the attributes in the order of the dictionary, each on the
  state topic of its entry in the table, then the aggregate document, then the last
  text.\<close>

definition state_messages :: "string \<Rightarrow> state \<Rightarrow> (string \<times> mqtt_payload) list" where
  "state_messages bt st =
     concat (map (\<lambda>kv. case map_of (TOPICS bt) (fst kv) of
                          None \<Rightarrow> []
                        | Some t \<Rightarrow> [(t @ ''/state'', Rendered (py_str (snd kv)))])
                 (current_states st))
     @ [(STATE_TOPIC bt, Document (current_states st)),
        (LAST_TEXT_TOPIC bt, Raw (last_text st))]"

definition publish_states :: "string \<Rightarrow> state \<Rightarrow> result" where
  "publish_states bt st = publish_all (state_messages bt st) st"

text \<open>The loop over \<^verbatim>\<open>data.items()\<close> that stores the fields whose key the state has.\<close>

fun update_states :: "dict \<Rightarrow> state \<Rightarrow> state" where
  "update_states [] st = st"
| "update_states ((k, v) # kvs) st =
     update_states kvs
       (if dict_has (current_states st) k
        then st\<lparr>current_states := dict_set k v (current_states st),
                log := log st @ [MqttUpdated k v]\<rparr>
        else st)"

text \<open>The loop over \<^verbatim>\<open>param_keys\<close> that builds the \<^verbatim>\<open>key=value\<close> arguments.\<close>

fun build_params :: "string list \<Rightarrow> dict \<Rightarrow> dict \<Rightarrow> json list" where
  "build_params [] data cs = []"
| "build_params (k # ks) data cs =
     (if dict_has data k \<and> dict_get data k \<noteq> JNull
        then [JStr (k @ ''='' @ py_str (dict_get data k))]
      else if dict_get cs k \<noteq> JNull
        then [JStr (k @ ''='' @ py_str (dict_get cs k))]
      else [])
     @ build_params ks data cs"

definition param_keys :: "string list" where
  "param_keys = [''color'', ''speed'', ''animation'', ''font'', ''matrix_height'']"

text \<open>
  Format 1 of the command topic: a dictionary with the keys \<^verbatim>\<open>command\<close> and
  \<^verbatim>\<open>params\<close>. Reading \<^verbatim>\<open>data["params"][0]\<close> and calling \<^verbatim>\<open>startswith\<close> on it are
  outside any \<^verbatim>\<open>try\<close>: an exception leaves \<^verbatim>\<open>handle_set_payload\<close>, with the
  state as it is at that point.
\<close>

definition websocket_format :: "dict \<Rightarrow> state \<Rightarrow> result" where
  "websocket_format data st =
     (let cmd = dict_get data ''command'';
          st1 = st\<lparr>log := log st @ [MqttDetected cmd]\<rparr>
      in if cmd = JStr ''led_on'' then
           (let st2 = send_led_on st1 in Inr (st2\<lparr>log := log st2 @ [MqttDisplayOn]\<rparr>))
         else if cmd = JStr ''led_off'' then
           (let st2 = send_led_off st1 in Inr (st2\<lparr>log := log st2 @ [MqttDisplayOff]\<rparr>))
         else if cmd = JStr ''send_text'' \<and> truthy (dict_get data ''params'') then
           (case subscript0 (dict_get data ''params'') of
              Inl e \<Rightarrow> Inl (e, st1)
            | Inr text_param \<Rightarrow>
                (case text_param of
                   JStr s \<Rightarrow>
                     (let t = (if starts_with s ''text='' then JStr (drop 5 s) else JStr s);
                          st2 = st1\<lparr>last_text := t, log := log st1 @ [MqttExtracted t]\<rparr>
                      in Inr (ws_send data (ensure_server st2)))
                 | _ \<Rightarrow> Inl (AttributeError, st1)))
         else Inr st1)"

text \<open>Format 2 of the command topic: a dictionary with the key \<^verbatim>\<open>send_text\<close>.\<close>

definition simple_format :: "dict \<Rightarrow> state \<Rightarrow> state" where
  "simple_format data st =
     (let t = dict_get data ''send_text'';
          st1 = st\<lparr>last_text := t, log := log st @ [MqttTextToDisplay t]\<rparr>;
          st2 = update_states data st1;
          params = t # build_params param_keys data (current_states st2);
          st3 = st2\<lparr>log := log st2 @ [MqttSending params]\<rparr>
      in ws_send (command ''send_text'' params) (ensure_server st3))"

text \<open>The elif chain for the individual topics.\<close>

definition individual_set :: "string \<Rightarrow> json \<Rightarrow> state \<Rightarrow> state" where
  "individual_set key data st =
     (if key = ''send_text'' then
        (let st1 = st\<lparr>last_text := data\<rparr>
         in if truthy (dict_get (current_states st1) ''power'')
            then ws_send (command ''send_text'' [data]) (ensure_server st1)
            else st1)
      else if key = ''power'' then
        (let on = (upper (py_str data) \<in> {''ON'', ''1'', ''TRUE''});
             st1 = ensure_server (st\<lparr>current_states := dict_set ''power'' (JBool on) (current_states st)\<rparr>)
         in if truthy (dict_get (current_states st1) ''power'')
            then ws_send (command ''send_text'' [JStr '' '']) st1
            else ws_send (command ''clear'' []) st1)
      else if dict_has (current_states st) key then
        st\<lparr>current_states := dict_set key data (current_states st),
           log := log st @ [MqttUpdated key data]\<rparr>
      else st)"

text \<open>\<^verbatim>\<open>json.loads\<close> under its \<^verbatim>\<open>try\<close>: a payload that is not JSON is the data itself.\<close>

definition decode :: "string \<Rightarrow> json" where
  "decode payload = (case json_loads payload of None \<Rightarrow> JStr payload | Some d \<Rightarrow> d)"

text \<open>The body of \<^verbatim>\<open>handle_set_payload\<close> from the decoded data on. The first branch
  is taken when the key is \<^verbatim>\<open>set\<close> and the data is a dictionary; everything else goes
  down the chain for the individual topics. The publish comes last, on every path that
  gets there.\<close>

definition dispatch :: "string \<Rightarrow> string \<Rightarrow> json \<Rightarrow> state \<Rightarrow> result" where
  "dispatch bt key data st =
     (case (if key = ''set'' then data else JNull) of
        JObj d \<Rightarrow>
          (let st1 = st\<lparr>log := log st @ [MqttProcessing data]\<rparr>
           in if dict_has d ''command'' \<and> dict_has d ''params'' then
                (case websocket_format d st1 of
                   Inl err \<Rightarrow> Inl err
                 | Inr st2 \<Rightarrow> publish_states bt st2)
              else if dict_has d ''send_text'' then publish_states bt (simple_format d st1)
              else publish_states bt st1)
      | _ \<Rightarrow> publish_states bt (individual_set key data st))"

text \<open>The first line of \<^verbatim>\<open>handle_set_payload\<close>: bytes are decoded as UTF-8, outside any
  \<^verbatim>\<open>try\<close>; a string is taken as it is.\<close>

definition to_text :: "payload \<Rightarrow> error + string" where
  "to_text p =
     (case p of
        Bytes b \<Rightarrow> if valid_utf8 b then Inr b else Inl UnicodeDecodeError
      | Str s \<Rightarrow> Inr s)"

definition handle_set_payload :: "string \<Rightarrow> string \<Rightarrow> payload \<Rightarrow> state \<Rightarrow> result" where
  "handle_set_payload bt key p st =
     (case to_text p of
        Inl e \<Rightarrow> Inl (e, st)
      | Inr payload \<Rightarrow>
          dispatch bt key (decode payload) (st\<lparr>log := log st @ [MqttSet key payload]\<rparr>))"

text \<open>The state a call leaves behind, whether it returns or raises.\<close>

definition final :: "result \<Rightarrow> state" where
  "final r = (case r of Inl (e, st) \<Rightarrow> st | Inr st \<Rightarrow> st)"

definition raises :: "result \<Rightarrow> bool" where
  "raises r = (case r of Inl x \<Rightarrow> True | Inr st \<Rightarrow> False)"

text \<open>\<^verbatim>\<open>on_message\<close>: the payload of a message is bytes; the topic is resolved to a key; a
  topic that resolves to none is dropped without a call.\<close>

definition on_message :: "string \<Rightarrow> string \<Rightarrow> string \<Rightarrow> state \<Rightarrow> result" where
  "on_message bt topic payload st =
     (if topic = CMD_TOPIC bt then handle_set_payload bt ''set'' (Bytes payload) st
      else if starts_with topic (CMD_TOPIC bt @ ''/'')
        then handle_set_payload bt (drop (length (CMD_TOPIC bt) + 1) topic) (Bytes payload) st
      else if map_of (TOPICS bt) ''send_text'' = Some topic
        then handle_set_payload bt ''send_text'' (Bytes payload) st
      else case find (\<lambda>kt. topic = snd kt @ ''/set'') (TOPICS bt) of
             Some kt \<Rightarrow> handle_set_payload bt (fst kt) (Bytes payload) st
           | None \<Rightarrow> Inr st)"

text \<open>The state the module starts in, for a transport that behaves as \<open>n\<close>.\<close>

definition initial :: "(nat \<Rightarrow> bool) \<Rightarrow> state" where
  "initial n =
     \<lparr>current_states = DEFAULTS, last_text = JStr [], ws = False, net = n, ops = 0,
      wire = [], requests = [], spawns = 0, published = [], log = []\<rparr>"

text \<open>A transport on which every operation succeeds, one on which none does, and one
  that accepts a single operation; the base topic of the source's comments.\<close>

definition always_up :: "nat \<Rightarrow> bool" where
  "always_up n = True"


definition up_once :: "nat \<Rightarrow> bool" where
  "up_once n = (n = 0)"

definition bt0 :: string where
  "bt0 = ''ipixel/6554874a3e63''"

text \<open>A state with the display on and a live socket, on a transport that stays up.\<close>

definition lit :: state where
  "lit = (initial always_up)\<lparr>current_states := dict_set ''power'' (JBool True) DEFAULTS,
           ws := True\<rparr>"

text \<open>Payloads: the two dialects of the same text command, a text command whose first
  argument is a number, and two display commands.\<close>

definition structured_hello :: string where
  \<open>structured_hello = ''{"command":"send_text","params":["text=Hello","color=ff0000"]}''\<close>

definition flat_hello :: string where
  \<open>flat_hello = ''{"send_text":"Hello","color":"ff0000"}''\<close>

definition ill_typed_text :: string where
  \<open>ill_typed_text = ''{"command":"send_text","params":[1]}''\<close>

definition led_on_now :: string where
  \<open>led_on_now = ''{"command":"led_on","params":["now"]}''\<close>

definition led_off_plain :: string where
  \<open>led_off_plain = ''{"command":"led_off","params":[]}''\<close>

text \<open>A payload of one byte that is not UTF-8.\<close>

definition not_utf8 :: string where
  "not_utf8 = [CHR 0xFF]"

section \<open>The decoder consumes its input\<close>

text \<open>
  Every successful parse returns a rest that is shorter than the input. Hence the length
  tests in \<open>parse_items\<close> and \<open>parse_pairs\<close>, which make the recursion evidently
  terminating, never cut a parse off: both functions satisfy the equations without them.
\<close>

lemma scanstring_shorter: "scanstring cs = Some (s, r) \<Longrightarrow> length r < length cs"
proof (induction cs arbitrary: s r rule: scanstring.induct)
  case 1
  then show ?case by simp
next
  case (2 c cs)
  show ?case
    using "2.prems" "2.IH"
    by (auto split: if_splits option.splits list.splits prod.splits)
       (fastforce dest: less_le_trans [OF _ length_drop [THEN eq_imp_le]])+
qed

lemma int_part_nonempty: "int_part cs \<noteq> [] \<Longrightarrow> cs \<noteq> []"
  by (auto simp: int_part_def)

lemma match_number_shorter:
  assumes "match_number cs = Some (v, r)"
  shows "length r < length cs"
proof -
  define r0 where "r0 = (if cs \<noteq> [] \<and> hd cs = CHR ''-'' then tl cs else cs)"
  have ip: "int_part r0 \<noteq> []"
    using assms unfolding match_number_def Let_def r0_def by (auto split: if_splits)
  then have "r0 \<noteq> []" by (rule int_part_nonempty)
  with ip have a: "length (drop (length (int_part r0)) r0) < length r0"
    by (cases "int_part r0") auto
  have b: "length r0 \<le> length cs" by (simp add: r0_def)
  have "length r \<le> length r0 - length (int_part r0)"
  proof (cases "cs \<noteq> [] \<and> hd cs = CHR ''-''")
    case True
    then have "r0 = tl cs" by (simp add: r0_def)
    with assms ip True show ?thesis
      unfolding match_number_def Let_def by (auto split: if_splits)
  next
    case False
    then have "r0 = cs" by (auto simp add: r0_def)
    with assms ip False show ?thesis
      unfolding match_number_def Let_def by (auto split: if_splits)
  qed
  then have "length r \<le> length (drop (length (int_part r0)) r0)"
    by simp
  with a b show ?thesis by simp
qed

lemma parse_shorter:
  "parse_value cs = Some (v, r) \<Longrightarrow> length r < length cs"
  "parse_items cs' = Some (vs, r') \<Longrightarrow> length r' < length cs'"
  "parse_pairs cs'' = Some (kvs, r'') \<Longrightarrow> length r'' < length cs''"
proof (induction cs and cs' and cs'' arbitrary: v r and vs r' and kvs r''
    rule: parse_value_parse_items_parse_pairs.induct)
  case 1
  then show ?case by simp
next
  case (2 c cs)
  show ?case
  proof (cases "c = CHR 0x22")
    case True
    with "2.prems" show ?thesis
      by (auto split: option.splits dest: scanstring_shorter)
  next
    case q: False
    show ?thesis
    proof (cases "c = CHR ''{''")
      case True
      show ?thesis
      proof (cases "skip_ws cs")
        case Nil
        with True "2.prems" show ?thesis by simp
      next
        case (Cons d r0)
        show ?thesis
        proof (cases "d = CHR ''}''")
          case T: True
          with True Cons "2.prems" length_skip_ws [of cs] show ?thesis by auto
        next
          case False
          with True Cons "2.prems" obtain kvs where
            "parse_pairs (skip_ws cs) = Some (kvs, r)"
            by (auto split: option.splits)
          from "2.IH"(1) [OF q True Cons False this] length_skip_ws [of cs]
          show ?thesis by simp
        qed
      qed
    next
      case b: False
      show ?thesis
      proof (cases "c = CHR ''[''")
        case True
        show ?thesis
        proof (cases "skip_ws cs")
          case Nil
          with True "2.prems" show ?thesis by simp
        next
          case (Cons d r0)
          show ?thesis
          proof (cases "d = CHR '']''")
            case T: True
            with True Cons "2.prems" length_skip_ws [of cs] show ?thesis by auto
          next
            case False
            with True Cons "2.prems" obtain vs where
              "parse_items (skip_ws cs) = Some (vs, r)"
              by (auto split: option.splits)
            from "2.IH"(2) [OF q b True Cons False this] length_skip_ws [of cs]
            show ?thesis by simp
          qed
        qed
      next
        case False
        with q b "2.prems" show ?thesis
          by (auto simp: starts_with_def split: if_splits option.splits
              dest: match_number_shorter)
      qed
    qed
  qed
next
  case (3 cs)
  note P = "3.prems" [unfolded parse_items.simps [of cs]]
  from P obtain v r1 where v: "parse_value cs = Some (v, r1)"
    by (auto split: option.splits)
  from "3.IH"(1) [OF v] have l1: "length r1 < length cs" .
  from P v obtain d r2 where d: "skip_ws r1 = d # r2"
    by (auto split: list.splits)
  have l2: "length r2 < length cs"
    using length_skip_ws [of r1] d l1 by simp
  show ?case
  proof (cases "d = CHR '']''")
    case True
    with P v d l2 show ?thesis by auto
  next
    case False
    with P v d have c: "d = CHR '',''" and g: "length (skip_ws r2) < length cs"
      by (auto split: if_splits)
    with P v d False obtain vs' where
      p: "parse_items (skip_ws r2) = Some (vs', r')"
      by (auto split: option.splits)
    from "3.IH"(2) [OF v refl d False c g p] g show ?thesis by simp
  qed
next
  case 4
  then show ?case by simp
next
  case (5 c cs)
  note P = "5.prems"
  from P have q: "\<not> c \<noteq> CHR 0x22" by (auto split: if_splits)
  from P q obtain k r1 where k: "scanstring cs = Some (k, r1)"
    by (auto split: option.splits)
  from P q k obtain d r2 where d: "skip_ws r1 = d # r2"
    by (auto split: list.splits)
  from P q k d have col: "\<not> d \<noteq> CHR '':''" and g: "length (skip_ws r2) < Suc (length cs)"
    by (auto split: if_splits)
  from P q k d col g obtain v r3 where v: "parse_value (skip_ws r2) = Some (v, r3)"
    by (auto split: option.splits)
  from "5.IH"(1) [OF q k refl d col g v] g have l3: "length r3 < Suc (length cs)" by simp
  from P q k d col g v obtain e r4 where e: "skip_ws r3 = e # r4"
    by (auto split: list.splits)
  have l4: "length r4 < length (c # cs)"
    using length_skip_ws [of r3] e l3 by simp
  show ?case
  proof (cases "e = CHR ''}''")
    case True
    with P q k d col g v e l4 show ?thesis by auto
  next
    case False
    with P q k d col g v e have c': "e = CHR '',''"
      and g': "length (skip_ws r4) < Suc (length cs)"
      by (auto split: if_splits)
    with P q k d col g v e False obtain kvs' where
      p: "parse_pairs (skip_ws r4) = Some (kvs', r'')"
      by (auto split: option.splits)
    from "5.IH"(2) [OF q k refl d col g v refl e False c' g' p] g' show ?thesis by simp
  qed
qed

lemma parse_items_unguarded:
  "parse_items cs =
     (case parse_value cs of
        None \<Rightarrow> None
      | Some (v, r1) \<Rightarrow>
          (case skip_ws r1 of
             [] \<Rightarrow> None
           | d # r2 \<Rightarrow>
               if d = CHR '']'' then Some ([v], r2)
               else if d = CHR '','' then
                 (case parse_items (skip_ws r2) of
                    None \<Rightarrow> None
                  | Some (vs, r3) \<Rightarrow> Some (v # vs, r3))
               else None))"
proof (cases "parse_value cs")
  case None
  then show ?thesis by (subst parse_items.simps) simp
next
  case (Some a)
  obtain v r1 where a: "a = (v, r1)" by (cases a)
  have l: "length r1 < length cs"
    using parse_shorter(1) Some a by blast
  show ?thesis
  proof (cases "skip_ws r1")
    case Nil
    with Some a show ?thesis by (subst parse_items.simps) simp
  next
    case (Cons d r2)
    have "length (skip_ws r2) < length cs"
      using length_skip_ws [of r2] length_skip_ws [of r1] Cons l by simp
    with Some a Cons show ?thesis by (subst parse_items.simps) simp
  qed
qed

lemma parse_pairs_unguarded:
  "parse_pairs (c # cs) =
     (if c \<noteq> CHR 0x22 then None
      else
        (case scanstring cs of
           None \<Rightarrow> None
         | Some (k, r1) \<Rightarrow>
             (case skip_ws r1 of
                [] \<Rightarrow> None
              | d # r2 \<Rightarrow>
                  if d \<noteq> CHR '':'' then None
                  else
                    (case parse_value (skip_ws r2) of
                       None \<Rightarrow> None
                     | Some (v, r3) \<Rightarrow>
                         (case skip_ws r3 of
                            [] \<Rightarrow> None
                          | e # r4 \<Rightarrow>
                              if e = CHR ''}'' then Some ([(k, v)], r4)
                              else if e = CHR '','' then
                                (case parse_pairs (skip_ws r4) of
                                   None \<Rightarrow> None
                                 | Some (kvs, r5) \<Rightarrow> Some ((k, v) # kvs, r5))
                              else None)))))"
proof -
  have g1: "length (skip_ws r2) < Suc (length cs)"
    if "scanstring cs = Some (k, r1)" "skip_ws r1 = d # r2" for k r1 d r2
    using scanstring_shorter [OF that(1)] length_skip_ws [of r1] length_skip_ws [of r2] that(2)
    by simp
  have g2: "length (skip_ws r4) < Suc (length cs)"
    if "scanstring cs = Some (k, r1)" "skip_ws r1 = d # r2"
      "parse_value (skip_ws r2) = Some (v, r3)" "skip_ws r3 = e # r4" for k r1 d r2 v r3 e r4
    using g1 [OF that(1,2)] parse_shorter(1) [OF that(3)] length_skip_ws [of r3]
      length_skip_ws [of r4] that(4)
    by simp
  show ?thesis
    by (auto simp: g1 g2 split: option.splits list.splits)
qed

section \<open>Dictionaries\<close>

lemma dict_get_set_same: "dict_get (dict_set k v d) k = v"
  by (induction d) (auto simp: dict_get_def)

lemma dict_get_set_other: "k' \<noteq> k \<Longrightarrow> dict_get (dict_set k v d) k' = dict_get d k'"
  by (induction d) (auto simp: dict_get_def)

lemma keys_dict_set: "dict_has d k \<Longrightarrow> map fst (dict_set k v d) = map fst d"
  by (induction d) (auto simp: dict_has_def rev_image_eqI)

section \<open>What the helpers leave alone\<close>

lemma ws_connect_frame [simp]:
  "current_states (ws_connect st) = current_states st"
  "last_text (ws_connect st) = last_text st"
  "requests (ws_connect st) = requests st"
  "published (ws_connect st) = published st"
  "spawns (ws_connect st) = spawns st"
  "net (ws_connect st) = net st"
  by (simp_all add: ws_connect_def Let_def)

lemma ensure_server_frame [simp]:
  "current_states (ensure_server st) = current_states st"
  "last_text (ensure_server st) = last_text st"
  "requests (ensure_server st) = requests st"
  "published (ensure_server st) = published st"
  "net (ensure_server st) = net st"
  by (simp_all add: ensure_server_def start_server_once_def Let_def)

lemma ws_send_frame [simp]:
  "current_states (ws_send p st) = current_states st"
  "last_text (ws_send p st) = last_text st"
  "requests (ws_send p st) = requests st @ [p]"
  "published (ws_send p st) = published st"
  "spawns (ws_send p st) = spawns st"
  "net (ws_send p st) = net st"
  by (simp_all add: ws_send_def Let_def split: sum.splits)

lemma update_states_frame [simp]:
  "last_text (update_states d st) = last_text st"
  "requests (update_states d st) = requests st"
  "published (update_states d st) = published st"
  "spawns (update_states d st) = spawns st"
  by (induction d st rule: update_states.induct; simp)+

lemma update_states_keys:
  "map fst (current_states (update_states d st)) = map fst (current_states st)"
  by (induction d st rule: update_states.induct) (simp_all add: keys_dict_set)

text \<open>A publish, whether it goes through or raises, touches nothing but the list of
  published messages, and that only by appending.\<close>

lemma publish_all_frame:
  "current_states (final (publish_all ms st)) = current_states st"
  "last_text (final (publish_all ms st)) = last_text st"
  "requests (final (publish_all ms st)) = requests st"
  "wire (final (publish_all ms st)) = wire st"
  "spawns (final (publish_all ms st)) = spawns st"
  "ws (final (publish_all ms st)) = ws st"
  "net (final (publish_all ms st)) = net st"
  by (induction ms arbitrary: st;
      simp add: client_publish_def final_def split: option.splits)+

lemma publish_states_frame [simp]:
  "current_states (final (publish_states bt st)) = current_states st"
  "last_text (final (publish_states bt st)) = last_text st"
  "requests (final (publish_states bt st)) = requests st"
  "wire (final (publish_states bt st)) = wire st"
  "spawns (final (publish_states bt st)) = spawns st"
  "ws (final (publish_states bt st)) = ws st"
  "net (final (publish_states bt st)) = net st"
  by (simp_all add: publish_states_def publish_all_frame)

lemma publish_all_ok:
  assumes "\<forall>m \<in> set ms. publish_error (snd m) = None"
  shows "publish_all ms st = Inr (st\<lparr>published := published st @ ms\<rparr>)"
  using assms by (induction ms arbitrary: st) (simp_all add: client_publish_def)

lemma publish_all_append:
  "publish_all (ms @ ns) st =
     (case publish_all ms st of Inl err \<Rightarrow> Inl err | Inr st' \<Rightarrow> publish_all ns st')"
  by (induction ms arbitrary: st) (simp_all split: sum.splits)

text \<open>The publish at the end of a path: the fields above are those the path left.\<close>

lemma then_publish_frame [simp]:
  "current_states (final (case r of Inl err \<Rightarrow> Inl err | Inr s \<Rightarrow> publish_states bt s))
     = current_states (final r)"
  "last_text (final (case r of Inl err \<Rightarrow> Inl err | Inr s \<Rightarrow> publish_states bt s))
     = last_text (final r)"
  "requests (final (case r of Inl err \<Rightarrow> Inl err | Inr s \<Rightarrow> publish_states bt s))
     = requests (final r)"
  "spawns (final (case r of Inl err \<Rightarrow> Inl err | Inr s \<Rightarrow> publish_states bt s))
     = spawns (final r)"
  "wire (final (case r of Inl err \<Rightarrow> Inl err | Inr s \<Rightarrow> publish_states bt s))
     = wire (final r)"
  by (cases r; simp; simp add: final_def)+

lemma final_Inr [simp]: "final (Inr st) = st"
  by (simp add: final_def)

lemma final_Inl [simp]: "final (Inl (e, st)) = st"
  by (simp add: final_def)

lemma websocket_format_states:
  "current_states (final (websocket_format d st)) = current_states st"
  by (simp add: websocket_format_def send_led_on_def send_led_off_def Let_def
      split: sum.splits json.splits)

lemma simple_format_keys:
  "map fst (current_states (simple_format d st)) = map fst (current_states st)"
  by (simp add: simple_format_def Let_def update_states_keys)

lemma individual_set_keys:
  assumes "map fst (current_states st) = map fst DEFAULTS"
  shows "map fst (current_states (individual_set key data st)) = map fst DEFAULTS"
proof -
  have p: "dict_has (current_states st) ''power''"
    using assms by (simp add: dict_has_def DEFAULTS_def)
  show ?thesis
    using assms p by (simp add: individual_set_def Let_def keys_dict_set)
qed

lemma dispatch_keys:
  assumes "map fst (current_states st) = map fst DEFAULTS"
  shows "map fst (current_states (final (dispatch bt key data st))) = map fst DEFAULTS"
proof (cases "\<exists>d. key = ''set'' \<and> data = JObj d")
  case True
  then obtain d where d: "key = ''set''" "data = JObj d" by blast
  show ?thesis
    using assms d
    by (simp add: dispatch_def Let_def simple_format_keys websocket_format_states)
next
  case False
  then have "dispatch bt key data st = publish_states bt (individual_set key data st)"
    by (auto simp: dispatch_def split: json.splits)
  then show ?thesis
    using individual_set_keys [OF assms] by simp
qed

lemma initial_keys: "map fst (current_states (initial n)) = map fst DEFAULTS"
  by (simp add: initial_def)

section \<open>Evaluating the decoder\<close>

lemmas decode_eval =
  decode_def json_loads_def skip_ws_def is_ws_def starts_with_def match_number_def
  int_part_def frac_part_def exp_part_def parse_items.simps is_digit_def dict_of_def
  unescape_def int_of_digits_def digit_val_def

lemma decode_examples:
  "decode structured_hello
     = JObj [(''command'', JStr ''send_text''),
             (''params'', JArr [JStr ''text=Hello'', JStr ''color=ff0000''])]"
  "decode flat_hello = JObj [(''send_text'', JStr ''Hello''), (''color'', JStr ''ff0000'')]"
  "decode ill_typed_text = JObj [(''command'', JStr ''send_text''), (''params'', JArr [JInt 1])]"
  "decode led_on_now = JObj [(''command'', JStr ''led_on''), (''params'', JArr [JStr ''now''])]"
  "decode led_off_plain = JObj [(''command'', JStr ''led_off''), (''params'', JArr [])]"
  by code_simp+

lemma token_forms:
  "upper (py_str (decode ''on'')) = ''ON''"
  "upper (py_str (decode ''ON'')) = ''ON''"
  "upper (py_str (decode ''1'')) = ''1''"
  "upper (py_str (decode ''true'')) = ''TRUE''"
  "upper (py_str (decode ''TRUE'')) = ''TRUE''"
  "upper (py_str (decode ''On'')) = ''ON''"
  "upper (py_str (decode ''OFF'')) = ''OFF''"
  by (simp_all add: decode_eval upper_def upper_char_def py_str_def dec_int_def dec_nat.simps)

text \<open>The payloads above are ASCII, so as bytes they decode to themselves; the byte
  \<^verbatim>\<open>FF\<close> does not decode.\<close>

lemma to_text_examples:
  "to_text (Bytes structured_hello) = Inr structured_hello"
  "to_text (Bytes flat_hello) = Inr flat_hello"
  "to_text (Bytes ill_typed_text) = Inr ill_typed_text"
  "to_text (Bytes led_on_now) = Inr led_on_now"
  "to_text (Bytes led_off_plain) = Inr led_off_plain"
  "to_text (Bytes ''on'') = Inr ''on''"
  "to_text (Bytes ''ON'') = Inr ''ON''"
  "to_text (Bytes ''1'') = Inr ''1''"
  "to_text (Bytes ''true'') = Inr ''true''"
  "to_text (Bytes ''TRUE'') = Inr ''TRUE''"
  "to_text (Bytes ''On'') = Inr ''On''"
  "to_text (Bytes ''OFF'') = Inr ''OFF''"
  "to_text (Bytes ''42'') = Inr ''42''"
  "to_text (Bytes not_utf8) = Inl UnicodeDecodeError"
  by code_simp+

section \<open>Auxiliary facts\<close>

lemma ensure_server_up:
  assumes "\<forall>n. net st n"
  shows "ws (ensure_server st)"
    and "wire (ensure_server st) = wire st @ (if ws st then [ping] else [])"
  using assms by (simp_all add: ensure_server_def ws_connect_def Let_def)

lemma ws_send_up:
  assumes "\<forall>n. net st n" "ws st"
  shows "wire (ws_send p st) = wire st @ [p]" "ws (ws_send p st)"
  using assms by (simp_all add: ws_send_def Let_def split: sum.splits)

lemma simple_format_text [simp]:
  "last_text (simple_format d st) = dict_get d ''send_text''"
  by (simp add: simple_format_def Let_def)

lemma simple_format_requests:
  "requests (simple_format d st)
     = requests st @ [command ''send_text''
         (dict_get d ''send_text'' # build_params param_keys d (current_states (simple_format d st)))]"
  by (simp add: simple_format_def Let_def)

lemma build_params_color:
  assumes "dict_has d ''color''" "dict_get d ''color'' \<noteq> JNull"
  shows "build_params param_keys d cs
     = JStr (''color='' @ py_str (dict_get d ''color'')) # build_params (tl param_keys) d cs"
  unfolding param_keys_def using assms by (subst build_params.simps) simp

lemma dispatch_simple:
  assumes "\<not> (dict_has d ''command'' \<and> dict_has d ''params'')" "dict_has d ''send_text''"
  shows "dispatch bt ''set'' (JObj d) st
     = publish_states bt (simple_format d (st\<lparr>log := log st @ [MqttProcessing (JObj d)]\<rparr>))"
  using assms by (auto simp: dispatch_def Let_def)

text \<open>What the power branch stores, for a payload that decodes to text.\<close>

lemma power_stored:
  assumes "to_text p = Inr payload"
  shows "dict_get (current_states (final (handle_set_payload bt ''power'' p st))) ''power''
     = JBool (upper (py_str (decode payload)) \<in> {''ON'', ''1'', ''TRUE''})"
  using assms
  by (simp add: handle_set_payload_def dispatch_def individual_set_def Let_def
      dict_get_set_same)

text \<open>Bytes that do not decode: the exception of the first line leaves the handler, and
  the state is as it was.\<close>

lemma undecodable_raises:
  assumes "to_text p = Inl e"
  shows "handle_set_payload bt key p st = Inl (e, st)"
  using assms by (simp add: handle_set_payload_def)

text \<open>A structured command whose name is none of \<^verbatim>\<open>led_on\<close>, \<^verbatim>\<open>led_off\<close>,
  \<^verbatim>\<open>send_text\<close> is logged and matches no arm: nothing is asked of the session manager.\<close>

lemma other_commands_not_forwarded:
  assumes "dict_has d ''command''" "dict_has d ''params''"
    and "dict_get d ''command'' \<notin> {JStr ''led_on'', JStr ''led_off'', JStr ''send_text''}"
  shows "dispatch bt ''set'' (JObj d) st
     = publish_states bt
         (st\<lparr>log := log st @ [MqttProcessing (JObj d), MqttDetected (dict_get d ''command'')]\<rparr>)"
  using assms by (simp add: dispatch_def websocket_format_def Let_def)

text \<open>A socket that went stale is dropped by the next \<^verbatim>\<open>ws_connect\<close>, when its ping
  fails; a new connection is tried at once.\<close>

lemma stale_socket_dropped_by_probe:
  assumes "ws st" "\<not> net st (ops st)"
  shows "ws (ws_connect st) = net st (Suc (ops st))"
    and "log (ws_connect st)
      = log st @ [if net st (Suc (ops st)) then WsConnected else WsConnectFailed]"
  using assms by (simp_all add: ws_connect_def Let_def)

text \<open>How \<^verbatim>\<open>on_message\<close> resolves the command topic and the set topic of a table entry.\<close>

lemma on_message_command_topic:
  "on_message bt (bt @ ''/set'') payload st = handle_set_payload bt ''set'' (Bytes payload) st"
  by (simp add: on_message_def CMD_TOPIC_def)

lemma on_message_attribute_topic:
  assumes "k \<in> set (map fst (TOPICS bt))"
  shows "on_message bt (bt @ ''/'' @ k @ ''/set'') payload st
     = handle_set_payload bt k (Bytes payload) st"
  using assms
  by (auto simp: on_message_def CMD_TOPIC_def TOPICS_def starts_with_def)

text \<open>
  The two branches that only store or only publish, for a payload that decodes to text.
  An attribute other than \<^verbatim>\<open>power\<close> is stored under its key and nothing else changes
  before the publish; a key that is unknown goes straight to the publish. The publish
  goes through when every rendered attribute can be encoded and the last text is
  neither a list nor a dictionary nor a string with a surrogate.
\<close>

lemma attribute_stored:
  assumes "to_text p = Inr payload" "key \<in> set (map fst DEFAULTS)" "key \<noteq> ''power''"
    and "map fst (current_states st) = map fst DEFAULTS"
  shows "handle_set_payload bt key p st
     = publish_states bt
         (st\<lparr>current_states := dict_set key (decode payload) (current_states st),
             log := log st @ [MqttSet key payload, MqttUpdated key (decode payload)]\<rparr>)"
    and "dict_get (current_states (final (handle_set_payload bt key p st))) key = decode payload"
    and "k \<noteq> key \<Longrightarrow> dict_get (current_states (final (handle_set_payload bt key p st))) k
           = dict_get (current_states st) k"
proof -
  have k: "key \<noteq> ''set''" "key \<noteq> ''send_text''"
    using assms(2) by (auto simp: DEFAULTS_def)
  have has: "dict_has (current_states st) key"
    using assms(2,4) by (simp add: dict_has_def)
  show eq: "handle_set_payload bt key p st
     = publish_states bt
         (st\<lparr>current_states := dict_set key (decode payload) (current_states st),
             log := log st @ [MqttSet key payload, MqttUpdated key (decode payload)]\<rparr>)"
    using k assms(1,3) has
    by (simp add: handle_set_payload_def dispatch_def individual_set_def)
  show "dict_get (current_states (final (handle_set_payload bt key p st))) key = decode payload"
    unfolding eq by (simp add: dict_get_set_same)
  show "dict_get (current_states (final (handle_set_payload bt key p st))) k
           = dict_get (current_states st) k" if "k \<noteq> key"
    unfolding eq using that by (simp add: dict_get_set_other)
qed

lemma unknown_key_only_publishes:
  assumes "to_text p = Inr payload"
    and "key \<noteq> ''set''" "key \<noteq> ''send_text''" "key \<noteq> ''power''"
    and "\<not> dict_has (current_states st) key"
  shows "handle_set_payload bt key p st
           = publish_states bt (st\<lparr>log := log st @ [MqttSet key payload]\<rparr>)"
  using assms by (simp add: handle_set_payload_def dispatch_def individual_set_def)

lemma publish_states_ok:
  assumes "\<forall>kv \<in> set (current_states st). valid_utf8 (py_str (snd kv))"
    and "publish_error (Raw (last_text st)) = None"
  shows "publish_states bt st
     = Inr (st\<lparr>published := published st @ state_messages bt st\<rparr>)"
proof -
  have "\<forall>m \<in> set (state_messages bt st). publish_error (snd m) = None"
    using assms by (auto simp: state_messages_def split: option.splits)
  then show ?thesis
    unfolding publish_states_def by (rule publish_all_ok)
qed

section \<open>The structured dialect and the device state\<close>

text \<open>
  C10. A message on the command topic whose payload (bytes that decode, or a string) is
  a JSON object with both \<^verbatim>\<open>command\<close> and \<^verbatim>\<open>params\<close> leaves the attribute mapping as it
  was, whether the call returns or raises; forwarding \<^verbatim>\<open>led_on\<close> or \<^verbatim>\<open>led_off\<close> does not
  touch the stored power. The last displayed text can change only when the command is
  \<^verbatim>\<open>send_text\<close>.
\<close>

theorem structured_leaves_states:
  assumes "to_text p = Inr payload" "decode payload = JObj d"
    and "dict_has d ''command''" "dict_has d ''params''"
  shows "current_states (final (handle_set_payload bt ''set'' p st)) = current_states st
    \<and> (dict_get d ''command'' \<noteq> JStr ''send_text'' \<longrightarrow>
         last_text (final (handle_set_payload bt ''set'' p st)) = last_text st)"
  using assms
  by (simp add: handle_set_payload_def dispatch_def websocket_format_states)
     (simp add: websocket_format_def send_led_on_def send_led_off_def Let_def)

theorem structured_leaves_states_witness:
  "to_text (Bytes led_off_plain) = Inr led_off_plain
   \<and> decode led_off_plain = JObj [(''command'', JStr ''led_off''), (''params'', JArr [])]
   \<and> current_states (final (handle_set_payload bt0 ''set'' (Bytes led_off_plain)
        (initial always_up))) = DEFAULTS
   \<and> last_text (final (handle_set_payload bt0 ''set'' (Bytes led_off_plain)
        (initial always_up))) = JStr []"
proof -
  have c: "dict_has [(''command'', JStr ''led_off''), (''params'', JArr [])] ''command''"
    and p: "dict_has [(''command'', JStr ''led_off''), (''params'', JArr [])] ''params''"
    by (simp_all add: dict_has_def)
  show ?thesis
    using decode_examples(5) to_text_examples(5)
      structured_leaves_states [OF to_text_examples(5) decode_examples(5) c p,
        of bt0 "initial always_up"]
    by (simp add: initial_def dict_get_def)
qed

section \<open>The key set of the device state\<close>

text \<open>
  C9. The state starts as a copy of \<^verbatim>\<open>DEFAULTS\<close>. From a state that has the keys of
  \<^verbatim>\<open>DEFAULTS\<close>, in their order, handling a message (any key, any payload, whether the
  call returns or raises, and also through \<^verbatim>\<open>on_message\<close> for any topic) leaves a state
  with the same keys in the same order: values change, keys do not.
\<close>

theorem key_set_invariant:
  assumes "map fst (current_states st) = map fst DEFAULTS"
  shows "map fst (current_states (final (handle_set_payload bt key p st)))
           = map fst DEFAULTS
    \<and> map fst (current_states (final (on_message bt topic payload st))) = map fst DEFAULTS"
proof -
  have h: "map fst (current_states (final (handle_set_payload bt k q st)))
             = map fst DEFAULTS" for k q
  proof (cases "to_text q")
    case (Inl e)
    with assms show ?thesis by (simp add: undecodable_raises)
  next
    case (Inr s)
    with assms dispatch_keys [of "st\<lparr>log := log st @ [MqttSet k s]\<rparr>"] show ?thesis
      by (simp add: handle_set_payload_def)
  qed
  have "map fst (current_states (final (on_message bt topic payload st))) = map fst DEFAULTS"
    using h assms by (simp add: on_message_def split: option.splits)
  then show ?thesis using h by simp
qed

theorem key_set_invariant_witness:
  "map fst (current_states (initial always_up)) = map fst DEFAULTS
   \<and> map fst (current_states (final (handle_set_payload bt0 ''set''
        (Bytes flat_hello) (initial always_up))))
       = map fst DEFAULTS"
  using key_set_invariant [OF initial_keys] initial_keys
  by blast

section \<open>The power topic\<close>

text \<open>
  C4. With the stored power true, a payload on the power topic (bytes that decode, or a
  string) whose upper-cased string form is none of \<^verbatim>\<open>ON\<close>, \<^verbatim>\<open>1\<close>, \<^verbatim>\<open>TRUE\<close> (for instance
  \<^verbatim>\<open>OFF\<close>) makes the translator ask the session manager for exactly one send, the clear
  command, and leaves the stored power false; this is so whether the publish that
  follows goes through or raises. On a transport that stays up the clear command is what
  goes out over the socket, after the liveness ping when a socket was held. A message on
  the set topic of \<^verbatim>\<open>power\<close> reaches the handler with the key \<^verbatim>\<open>power\<close>.
\<close>

theorem power_off_sends_clear:
  assumes "truthy (dict_get (current_states st) ''power'')"
    and "to_text p = Inr payload"
    and "upper (py_str (decode payload)) \<notin> {''ON'', ''1'', ''TRUE''}"
  shows "on_message bt (bt @ ''/power/set'') b st = handle_set_payload bt ''power'' (Bytes b) st
    \<and> requests (final (handle_set_payload bt ''power'' p st))
        = requests st @ [command ''clear'' []]
    \<and> dict_get (current_states (final (handle_set_payload bt ''power'' p st))) ''power''
        = JBool False
    \<and> ((\<forall>n. net st n) \<longrightarrow>
          wire (final (handle_set_payload bt ''power'' p st))
            = wire st @ (if ws st then [ping] else []) @ [command ''clear'' []])"
proof -
  let ?s = "st\<lparr>log := log st @ [MqttSet ''power'' payload],
                 current_states := dict_set ''power'' (JBool False) (current_states st)\<rparr>"
  have eq: "handle_set_payload bt ''power'' p st
      = publish_states bt (ws_send (command ''clear'' []) (ensure_server ?s))"
    using assms(2,3)
    by (simp add: handle_set_payload_def dispatch_def individual_set_def Let_def
        dict_get_set_same)
  have w: "wire (ws_send (command ''clear'' []) (ensure_server ?s))
      = wire st @ (if ws st then [ping] else []) @ [command ''clear'' []]" if "\<forall>n. net st n"
  proof -
    have n: "\<forall>n. net ?s n" using that by simp
    have "\<forall>n. net (ensure_server ?s) n" using that by simp
    then show ?thesis
      using ws_send_up(1) [of "ensure_server ?s"] ensure_server_up [OF n] by simp
  qed
  have t: "on_message bt (bt @ ''/power/set'') b st
      = handle_set_payload bt ''power'' (Bytes b) st"
    using on_message_attribute_topic [of "''power''" bt b st] by (simp add: TOPICS_def)
  show ?thesis
    unfolding eq using w t by (simp add: dict_get_set_same)
qed

theorem power_off_sends_clear_witness:
  "truthy (dict_get (current_states lit) ''power'')
   \<and> to_text (Bytes ''OFF'') = Inr ''OFF''
   \<and> upper (py_str (decode ''OFF'')) \<notin> {''ON'', ''1'', ''TRUE''}
   \<and> requests (final (handle_set_payload bt0 ''power'' (Bytes ''OFF'') lit))
       = [command ''clear'' []]
   \<and> dict_get (current_states (final (handle_set_payload bt0 ''power'' (Bytes ''OFF'') lit)))
        ''power'' = JBool False
   \<and> wire (final (handle_set_payload bt0 ''power'' (Bytes ''OFF'') lit))
       = [ping, command ''clear'' []]"
proof -
  have p: "truthy (dict_get (current_states lit) ''power'')"
    by (simp add: lit_def DEFAULTS_def dict_get_def)
  have t: "upper (py_str (decode ''OFF'')) \<notin> {''ON'', ''1'', ''TRUE''}"
    by (simp add: token_forms)
  have n: "\<forall>n. net lit n" "requests lit = []" "wire lit = []" "ws lit"
    by (simp_all add: lit_def initial_def always_up_def)
  from power_off_sends_clear [OF p to_text_examples(12) t, of bt0] p t n to_text_examples(12)
  show ?thesis by simp
qed

text \<open>
  C5, as stated, fails: the payload \<^verbatim>\<open>On\<close> is none of the five tokens, and the stored
  power is true after it.
\<close>

theorem power_token_counterexample:
  "''On'' \<notin> {''on'', ''ON'', ''1'', ''true'', ''TRUE''}
   \<and> dict_get (current_states (final (handle_set_payload bt0 ''power'' (Bytes ''On'')
        (initial always_up)))) ''power'' = JBool True"
  by (simp add: power_stored [OF to_text_examples(11)] token_forms)

text \<open>
  C5, amended. For every payload on the power topic that is a string, or bytes that
  decode to one, the stored power is true exactly when the upper-cased string form of
  the decoded payload is one of \<^verbatim>\<open>ON\<close>, \<^verbatim>\<open>1\<close>, \<^verbatim>\<open>TRUE\<close>; each of the tokens \<^verbatim>\<open>on\<close>,
  \<^verbatim>\<open>ON\<close>, \<^verbatim>\<open>1\<close>, \<^verbatim>\<open>true\<close>, \<^verbatim>\<open>TRUE\<close> is stored as true. (Bytes that do not decode store
  nothing: the stored power stays.)
\<close>

theorem power_token_rule:
  "dict_get (current_states (final (handle_set_payload bt ''power'' p st))) ''power''
     = (case to_text p of
          Inl e \<Rightarrow> dict_get (current_states st) ''power''
        | Inr payload \<Rightarrow> JBool (upper (py_str (decode payload)) \<in> {''ON'', ''1'', ''TRUE''}))
   \<and> dict_get (current_states (final (handle_set_payload bt ''power'' (Bytes ''on'') st)))
        ''power'' = JBool True
   \<and> dict_get (current_states (final (handle_set_payload bt ''power'' (Bytes ''ON'') st)))
        ''power'' = JBool True
   \<and> dict_get (current_states (final (handle_set_payload bt ''power'' (Bytes ''1'') st)))
        ''power'' = JBool True
   \<and> dict_get (current_states (final (handle_set_payload bt ''power'' (Bytes ''true'') st)))
        ''power'' = JBool True
   \<and> dict_get (current_states (final (handle_set_payload bt ''power'' (Bytes ''TRUE'') st)))
        ''power'' = JBool True"
proof -
  have g: "dict_get (current_states (final (handle_set_payload bt ''power'' p st))) ''power''
     = (case to_text p of
          Inl e \<Rightarrow> dict_get (current_states st) ''power''
        | Inr payload \<Rightarrow> JBool (upper (py_str (decode payload)) \<in> {''ON'', ''1'', ''TRUE''}))"
  proof (cases "to_text p")
    case (Inl e)
    then show ?thesis by (simp add: undecodable_raises)
  next
    case (Inr payload)
    then show ?thesis by (simp add: power_stored)
  qed
  show ?thesis
    using g
    by (simp add: power_stored [OF to_text_examples(6)] power_stored [OF to_text_examples(7)]
        power_stored [OF to_text_examples(8)] power_stored [OF to_text_examples(9)]
        power_stored [OF to_text_examples(10)] token_forms)
qed

section \<open>A send that fails\<close>

text \<open>
  C3, as stated, fails: after a connect that succeeded, a send that fails is logged and
  the socket is still held.
\<close>

theorem send_failure_counterexample:
  "ws (ws_connect (initial up_once))
   \<and> \<not> net (ws_connect (initial up_once)) (ops (ws_connect (initial up_once)))
   \<and> ws (ws_send (command ''clear'' []) (ws_connect (initial up_once)))
   \<and> log (ws_send (command ''clear'' []) (ws_connect (initial up_once)))
       = [WsConnected, WsSendFailed]"
  by (simp add: ws_send_def ws_connect_def initial_def up_once_def Let_def)

text \<open>
  C3, amended. When the transmission fails in \<^verbatim>\<open>ws_send\<close> (on the socket held, or on the
  one \<^verbatim>\<open>ws_send\<close> has just connected), the operation logs the failure and returns
  without another attempt: one operation on the socket, nothing on the wire. The socket
  stays held.
\<close>

theorem send_failure_keeps_handle:
  assumes "ws (if ws st then st else ws_connect st)"
    and "\<not> net st (ops (if ws st then st else ws_connect st))"
  shows "ws (ws_send p st)
    \<and> wire (ws_send p st) = wire (if ws st then st else ws_connect st)
    \<and> ops (ws_send p st) = Suc (ops (if ws st then st else ws_connect st))
    \<and> log (ws_send p st) = log (if ws st then st else ws_connect st) @ [WsSendFailed]
    \<and> requests (ws_send p st) = requests st @ [p]"
proof (cases "ws st")
  case True
  with assms show ?thesis by (simp add: ws_send_def Let_def)
next
  case False
  have c: "ws_connect (st\<lparr>requests := requests st @ [p]\<rparr>)
      = (ws_connect st)\<lparr>requests := requests st @ [p]\<rparr>"
    by (simp add: ws_connect_def Let_def)
  from False assms show ?thesis
    by (simp add: ws_send_def Let_def c)
qed

theorem send_failure_keeps_handle_witness:
  "ws (ws_connect (initial up_once))
   \<and> \<not> net (ws_connect (initial up_once)) (ops (ws_connect (initial up_once)))
   \<and> ws (ws_send ping (ws_connect (initial up_once)))
   \<and> wire (ws_send ping (ws_connect (initial up_once))) = []
   \<and> ops (ws_send ping (ws_connect (initial up_once))) = 2"
proof -
  have a: "ws (ws_connect (initial up_once))"
    and b: "\<not> net (ws_connect (initial up_once)) (ops (ws_connect (initial up_once)))"
    and c: "wire (ws_connect (initial up_once)) = []" "ops (ws_connect (initial up_once)) = 1"
    by (simp_all add: ws_connect_def initial_def up_once_def Let_def)
  from send_failure_keeps_handle [of "ws_connect (initial up_once)" ping] a b c
  show ?thesis by simp
qed

section \<open>Payloads with ill-typed fields\<close>

text \<open>
  C7 says that no payload makes the handler raise. For the text command whose
  first argument is the number 1 the handler reads the argument and calls
  \<^verbatim>\<open>startswith\<close> on it, outside any \<^verbatim>\<open>try\<close>: the call ends with an
  \<^verbatim>\<open>AttributeError\<close>, for every base topic and from every state, before anything is
  sent or published.
\<close>

theorem ill_typed_params_raise:
  "handle_set_payload bt ''set'' (Bytes ill_typed_text) st
     = Inl (AttributeError,
            st\<lparr>log := log st @
              [MqttSet ''set'' ill_typed_text,
               MqttProcessing
                 (JObj [(''command'', JStr ''send_text''), (''params'', JArr [JInt 1])]),
               MqttDetected (JStr ''send_text'')]\<rparr>)"
  by (simp add: handle_set_payload_def to_text_examples decode_examples dispatch_def
      websocket_format_def dict_has_def dict_get_def Let_def)

section \<open>The two dialects of a text command\<close>

text \<open>What a publish does when the last text is a list: the attributes and the
  aggregate document go out, and the publish of the last text raises.\<close>

lemma list_last_text_raises:
  assumes "last_text st = JArr xs"
    and "\<forall>kv \<in> set (current_states st). valid_utf8 (py_str (snd kv))"
  shows "publish_states bt st
     = Inl (TypeError, st\<lparr>published := published st @ butlast (state_messages bt st)\<rparr>)"
proof -
  have ok: "\<forall>m \<in> set (butlast (state_messages bt st)). publish_error (snd m) = None"
    using assms(2) by (auto simp: state_messages_def butlast_append split: option.splits)
  have s: "state_messages bt st
      = butlast (state_messages bt st) @ [(LAST_TEXT_TOPIC bt, Raw (JArr xs))]"
    using assms(1) by (simp add: state_messages_def butlast_append)
  show ?thesis
    unfolding publish_states_def
    by (subst s) (simp add: publish_all_append publish_all_ok [OF ok] client_publish_def)
qed

lemma dict_set_values:
  "kv \<in> set (dict_set k v d) \<Longrightarrow> kv \<in> set d \<or> snd kv = v"
  by (induction d) (auto split: if_splits)

lemma update_states_values:
  "kv \<in> set (current_states (update_states d st))
     \<Longrightarrow> kv \<in> set (current_states st) \<or> snd kv \<in> snd ` set d"
proof (induction d st rule: update_states.induct)
  case (1 st)
  then show ?case by simp
next
  case (2 k v kvs st)
  then show ?case
    by (fastforce dest: dict_set_values split: if_splits)
qed

lemma simple_format_values:
  "kv \<in> set (current_states (simple_format d st))
     \<Longrightarrow> kv \<in> set (current_states st) \<or> snd kv \<in> snd ` set d"
  by (auto simp: simple_format_def Let_def dest: update_states_values)

text \<open>
  C1, as stated, fails: from the initial state, the structured payload makes the
  translator ask for one send, and the first argument of that send is \<^verbatim>\<open>text=Hello\<close>,
  not \<^verbatim>\<open>Hello\<close>.
\<close>

theorem dialects_counterexample:
  "requests (final (handle_set_payload bt0 ''set'' (Bytes structured_hello) (initial always_up)))
     = [command ''send_text'' [JStr ''text=Hello'', JStr ''color=ff0000'']]
   \<and> subscript0 (dict_get (hd (requests (final (handle_set_payload bt0 ''set''
         (Bytes structured_hello) (initial always_up))))) ''params'')
       = Inr (JStr ''text=Hello'')"
  by (simp add: handle_set_payload_def to_text_examples decode_examples dispatch_def
      websocket_format_def dict_has_def dict_get_def Let_def starts_with_def initial_def
      command_def)

text \<open>
  C1, amended. From every state, both payloads on the command topic leave the last
  displayed text \<^verbatim>\<open>Hello\<close> and ask for one send. The structured payload is sent on as it
  came, so the first argument of its send is \<^verbatim>\<open>text=Hello\<close>; the flat payload gives a
  \<^verbatim>\<open>send_text\<close> command whose first argument is \<^verbatim>\<open>Hello\<close> and whose second is
  \<^verbatim>\<open>color=ff0000\<close>, followed by the arguments built for the remaining parameter keys.
  Both calls return when every attribute the state holds renders to a string that can
  be encoded.
\<close>

theorem dialects_last_text:
  "last_text (final (handle_set_payload bt ''set'' (Bytes structured_hello) st)) = JStr ''Hello''
   \<and> requests (final (handle_set_payload bt ''set'' (Bytes structured_hello) st))
       = requests st @ [command ''send_text'' [JStr ''text=Hello'', JStr ''color=ff0000'']]
   \<and> last_text (final (handle_set_payload bt ''set'' (Bytes flat_hello) st)) = JStr ''Hello''
   \<and> requests (final (handle_set_payload bt ''set'' (Bytes flat_hello) st))
       = requests st @ [command ''send_text'' (JStr ''Hello'' # JStr ''color=ff0000''
           # build_params (tl param_keys)
               [(''send_text'', JStr ''Hello''), (''color'', JStr ''ff0000'')]
               (current_states (final (handle_set_payload bt ''set'' (Bytes flat_hello) st))))]
   \<and> ((\<forall>kv \<in> set (current_states st). valid_utf8 (py_str (snd kv))) \<longrightarrow>
         \<not> raises (handle_set_payload bt ''set'' (Bytes structured_hello) st)
       \<and> \<not> raises (handle_set_payload bt ''set'' (Bytes flat_hello) st))"
proof -
  let ?c = "[(''command'', JStr ''send_text''),
             (''params'', JArr [JStr ''text=Hello'', JStr ''color=ff0000''])]"
  let ?d = "[(''send_text'', JStr ''Hello''), (''color'', JStr ''ff0000'')]"
  let ?s1 = "ws_send ?c (ensure_server
      (st\<lparr>last_text := JStr ''Hello'',
          log := log st @ [MqttSet ''set'' structured_hello, MqttProcessing (JObj ?c),
                            MqttDetected (JStr ''send_text''), MqttExtracted (JStr ''Hello'')]\<rparr>))"
  let ?s2 = "simple_format ?d
      (st\<lparr>log := log st @ [MqttSet ''set'' flat_hello, MqttProcessing (JObj ?d)]\<rparr>)"
  have s: "handle_set_payload bt ''set'' (Bytes structured_hello) st = publish_states bt ?s1"
    by (simp add: handle_set_payload_def to_text_examples decode_examples dispatch_def
        websocket_format_def dict_has_def dict_get_def Let_def starts_with_def)
  have d: "\<not> (dict_has ?d ''command'' \<and> dict_has ?d ''params'')" "dict_has ?d ''send_text''"
    "dict_has ?d ''color''" "dict_get ?d ''color'' \<noteq> JNull"
    "dict_get ?d ''send_text'' = JStr ''Hello''" "py_str (dict_get ?d ''color'') = ''ff0000''"
    by (simp_all add: dict_has_def dict_get_def py_str_def)
  have f: "handle_set_payload bt ''set'' (Bytes flat_hello) st = publish_states bt ?s2"
    by (simp add: handle_set_payload_def to_text_examples decode_examples
        dispatch_simple [OF d(1,2)])
  have r: "\<not> raises (publish_states bt ?s1) \<and> \<not> raises (publish_states bt ?s2)"
    if v: "\<forall>kv \<in> set (current_states st). valid_utf8 (py_str (snd kv))"
  proof -
    have v1: "\<forall>kv \<in> set (current_states ?s1). valid_utf8 (py_str (snd kv))"
      using v by simp
    have "valid_utf8 (py_str (snd kv))" if "kv \<in> set (current_states ?s2)" for kv
    proof -
      from simple_format_values [OF that]
      have "kv \<in> set (current_states st) \<or> snd kv \<in> snd ` set ?d"
        by simp
      then show ?thesis using v by (auto simp: py_str_def)
    qed
    then have v2: "\<forall>kv \<in> set (current_states ?s2). valid_utf8 (py_str (snd kv))"
      by blast
    have l: "publish_error (Raw (last_text ?s1)) = None"
      "publish_error (Raw (last_text ?s2)) = None"
      by (simp_all add: d(5))
    show ?thesis
      by (simp add: publish_states_ok [OF v1 l(1)] publish_states_ok [OF v2 l(2)] raises_def)
  qed
  show ?thesis
    unfolding s f using r
    by (simp add: simple_format_requests build_params_color [OF d(3,4)] d(5,6) command_def
        del: build_params.simps)
qed

theorem dialects_last_text_witness:
  "\<not> raises (handle_set_payload bt0 ''set'' (Bytes structured_hello) (initial always_up))
   \<and> \<not> raises (handle_set_payload bt0 ''set'' (Bytes flat_hello) (initial always_up))
   \<and> last_text (final (handle_set_payload bt0 ''set'' (Bytes flat_hello) (initial always_up)))
       = JStr ''Hello''"
proof -
  have v: "\<forall>kv \<in> set (current_states (initial always_up)). valid_utf8 (py_str (snd kv))"
    by (simp add: initial_def DEFAULTS_def py_str_def dec_int_def dec_nat.simps)
  from dialects_last_text [of bt0 "initial always_up"] v show ?thesis
    by blast
qed

section \<open>Forwarding a structured command\<close>




section \<open>Bytes that are not UTF-8\<close>

text \<open>
  C6 says that a payload on the set topic of an attribute leaves the attribute holding
  the value set, in the snapshot a publish emits. For the one-byte payload \<^verbatim>\<open>FF\<close> on the
  set topic of \<^verbatim>\<open>brightness\<close> the first line of the handler, \<^verbatim>\<open>payload.decode()\<close>,
  raises \<^verbatim>\<open>UnicodeDecodeError\<close> outside any \<^verbatim>\<open>try\<close>: from every state the call ends with
  the exception, the attribute mapping is as it was and nothing is published.
\<close>

theorem undecodable_attribute_payload:
  "on_message bt (bt @ ''/brightness/set'') not_utf8 st
     = handle_set_payload bt ''brightness'' (Bytes not_utf8) st
   \<and> handle_set_payload bt ''brightness'' (Bytes not_utf8) st = Inl (UnicodeDecodeError, st)
   \<and> current_states (final (handle_set_payload bt ''brightness'' (Bytes not_utf8) st))
       = current_states st
   \<and> published (final (handle_set_payload bt ''brightness'' (Bytes not_utf8) st))
       = published st"
proof -
  have t: "on_message bt (bt @ ''/brightness/set'') not_utf8 st
      = handle_set_payload bt ''brightness'' (Bytes not_utf8) st"
    using on_message_attribute_topic [of "''brightness''" bt not_utf8 st]
    by (simp add: TOPICS_def)
  show ?thesis
    using t by (simp add: undecodable_raises [OF to_text_examples(14)])
qed

text \<open>
  C8 says that a message with an unknown key still ends with a state publish. For the
  one-byte payload \<^verbatim>\<open>FF\<close> under the key \<^verbatim>\<open>clear\<close>, which is no attribute, the first
  line of the handler raises \<^verbatim>\<open>UnicodeDecodeError\<close>: from every state the call ends with
  the exception and without a publish.
\<close>

theorem undecodable_unknown_key_payload:
  "on_message bt (bt @ ''/clear/set'') not_utf8 st
     = handle_set_payload bt ''clear'' (Bytes not_utf8) st
   \<and> raises (handle_set_payload bt ''clear'' (Bytes not_utf8) st)
   \<and> final (handle_set_payload bt ''clear'' (Bytes not_utf8) st) = st
   \<and> published (final (handle_set_payload bt ''clear'' (Bytes not_utf8) st)) = published st"
proof -
  have t: "on_message bt (bt @ ''/clear/set'') not_utf8 st
      = handle_set_payload bt ''clear'' (Bytes not_utf8) st"
    using on_message_attribute_topic [of "''clear''" bt not_utf8 st]
    by (simp add: TOPICS_def)
  show ?thesis
    using t by (simp add: undecodable_raises [OF to_text_examples(14)] raises_def)
qed

end
